theory Spec2Isabelle
  imports Complex_Main "HOL-Library.Signed_Division" "HOL-Library.Multiset"
begin

section \<open>Vectors, matrices and failures\<close>

text \<open>
  \<^verbatim>\<open>TScalarType\<close> (\<^verbatim>\<open>double\<close> in the tests) is modelled by \<^typ>\<open>real\<close>: arithmetic is
  exact and there is no rounding. The one NaN that matters, \<^verbatim>\<open>std::sqrt\<close> of a negative
  number, is the value \<open>None\<close> of \<open>std_sqrt\<close>. A \<^verbatim>\<open>VectorType\<close> is the list of its
  entries, a \<^verbatim>\<open>MatrixType\<close> the list of its rows.

  The code signals failure by throwing a \<^verbatim>\<open>std::string\<close>; the model keeps the message.
  Eigen checks the operand sizes of its operations with \<^verbatim>\<open>eigen_assert\<close>; an operation
  whose operands do not fit is the failure \<open>SizeMismatch\<close> of the model. The failures
  \<open>Uninitialized\<close>, \<open>DimensionMismatch\<close> and \<open>NumericalInstability\<close> are those the
  specification names for the predictor, whose code is not at hand.
\<close>

type_synonym vec = "real list"
type_synonym mat = "real list list"

datatype error =
  Thrown string | SizeMismatch | Uninitialized | DimensionMismatch | NumericalInstability

definition nrows :: "mat \<Rightarrow> nat" where
  "nrows A = length A"

definition ncols :: "mat \<Rightarrow> nat" where
  "ncols A = (case A of [] \<Rightarrow> 0 | r # _ \<Rightarrow> length r)"

definition is_mat :: "nat \<Rightarrow> nat \<Rightarrow> mat \<Rightarrow> bool" where
  "is_mat n m A \<longleftrightarrow> length A = n \<and> list_all (\<lambda>r. length r = m) A"

definition dot :: "vec \<Rightarrow> vec \<Rightarrow> real" where
  "dot a b = sum_list (map2 (*) a b)"

definition col :: "mat \<Rightarrow> nat \<Rightarrow> vec" where
  "col A j = map (\<lambda>r. r ! j) A"

definition adjoint :: "mat \<Rightarrow> mat" where
  \<comment> \<open>\<^verbatim>\<open>A.adjoint()\<close>: over the reals, the transpose\<close>
  "adjoint A = map (col A) [0..<ncols A]"

definition mat_mul :: "mat \<Rightarrow> mat \<Rightarrow> error + mat" where
  \<comment> \<open>\<^verbatim>\<open>A * B\<close>\<close>
  "mat_mul A B =
     (if ncols A = nrows B
      then Inr (map (\<lambda>r. map (\<lambda>j. dot r (col B j)) [0..<ncols B]) A)
      else Inl SizeMismatch)"

definition mat_vec :: "mat \<Rightarrow> vec \<Rightarrow> error + vec" where
  \<comment> \<open>\<^verbatim>\<open>A * v\<close> for a column vector \<^verbatim>\<open>v\<close>\<close>
  "mat_vec A v =
     (if ncols A = length v then Inr (map (\<lambda>r. dot r v) A) else Inl SizeMismatch)"

definition smult :: "real \<Rightarrow> mat \<Rightarrow> mat" where
  \<comment> \<open>\<^verbatim>\<open>c * A\<close>\<close>
  "smult c A = map (map ((*) c)) A"

definition as_vector :: "mat \<Rightarrow> error + vec" where
  \<comment> \<open>\<^verbatim>\<open>VectorType v = A\<close>: a column vector is built from a one-column expression\<close>
  "as_vector A = (if ncols A = 1 then Inr (col A 0) else Inl SizeMismatch)"

definition cwise_mul :: "vec \<Rightarrow> vec \<Rightarrow> error + vec" where
  \<comment> \<open>\<^verbatim>\<open>a.array() * b.array()\<close>\<close>
  "cwise_mul a b =
     (if length a = length b then Inr (map2 (*) a b) else Inl SizeMismatch)"

definition vec_add :: "vec \<Rightarrow> vec \<Rightarrow> error + vec" where
  \<comment> \<open>\<^verbatim>\<open>a + b\<close>\<close>
  "vec_add a b =
     (if length a = length b then Inr (map2 (+) a b) else Inl SizeMismatch)"




definition std_sqrt :: "real \<Rightarrow> real option" where
  \<comment> \<open>\<^verbatim>\<open>std::sqrt\<close>: NaN, here \<open>None\<close>, on a negative argument\<close>
  "std_sqrt x = (if x < 0 then None else Some (sqrt x))"

definition asDiagonal :: "vec \<Rightarrow> mat" where
  \<comment> \<open>\<^verbatim>\<open>v.asDiagonal()\<close>, written out as a square matrix\<close>
  "asDiagonal v =
     map (\<lambda>i. map (\<lambda>j. if i = j then v ! i else 0) [0..<length v]) [0..<length v]"

section \<open>The likelihood interface (Likelihood.h)\<close>

text \<open>
  \<^verbatim>\<open>GaussianProcess.h\<close> is not part of the sources at hand. What the likelihood reads
  from the engine through \<^verbatim>\<open>ComputeLabelMatrix\<close> and \<^verbatim>\<open>ComputeCoreMatrix\<close> is
  taken as given: the label matrix \<open>Y\<close> (one row per sample, one column per output), the
  core matrix \<open>C\<close> and the determinant that \<^verbatim>\<open>ComputeCoreMatrix\<close> returns.
\<close>

record gp_engine =
  LabelMatrix :: mat
  CoreMatrix :: mat
  Determinant :: real

definition GetLabelMatrix :: "gp_engine \<Rightarrow> mat" where
  "GetLabelMatrix gp = LabelMatrix gp"

definition GetCoreMatrix :: "gp_engine \<Rightarrow> mat \<times> real" where
  "GetCoreMatrix gp = (CoreMatrix gp, Determinant gp)"

definition Likelihood_call :: "gp_engine \<Rightarrow> error + vec" where
  \<comment> \<open>\<^verbatim>\<open>Likelihood::operator()\<close>\<close>
  "Likelihood_call gp = Inl (Thrown ''Likelihood: operator() is not implemented.'')"

definition data_fit :: "mat \<Rightarrow> mat \<Rightarrow> error + vec" where
  \<comment> \<open>\<^verbatim>\<open>VectorType df = -0.5 * (Y.adjoint() * C * Y)\<close>\<close>
  "data_fit Y C =
     (case mat_mul (adjoint Y) C of
        Inl e \<Rightarrow> Inl e
      | Inr YC \<Rightarrow>
          (case mat_mul YC Y of
             Inl e \<Rightarrow> Inl e
           | Inr YCY \<Rightarrow> as_vector (smult (- 0.5) YCY)))"

definition constant_term :: "mat \<Rightarrow> real" where
  \<comment> \<open>\<^verbatim>\<open>-C.rows()/2 * std::log(2*M_PI)\<close>: \<^verbatim>\<open>C.rows()\<close> is a signed integer, the
      quotient is the integer quotient of C++, rounded towards zero\<close>
  "constant_term C = real_of_int ((- int (nrows C)) sdiv 2) * ln (2 * pi)"

definition GaussianLogLikelihood_call :: "gp_engine \<Rightarrow> error + vec" where
  \<comment> \<open>\<^verbatim>\<open>GaussianLogLikelihood::operator()\<close>\<close>
  "GaussianLogLikelihood_call gp =
     (let Y = GetLabelMatrix gp;
          (C, determinant) = GetCoreMatrix gp
      in case data_fit Y C of
           Inl e \<Rightarrow> Inl e
         | Inr df \<Rightarrow>
             if determinant \<le> 0
             then Inl (Thrown ''GaussianLogLikelihood: determinant of K is smaller or equal to zero.'')
             else
               (let cp = - 0.5 * ln determinant;
                    ct = constant_term C
                in Inr (map (\<lambda>d. d + (cp + ct)) df)))"

text \<open>
  The likelihood as the specification words it, for comparison with the code:
  \<open>-0.5 * diag(Y\<^sup>T C Y) - 0.5 * log(det) - (N/2) * log(2 \<pi>)\<close> per output column, with \<open>N\<close>
  the number of samples and \<open>N/2\<close> a real number.
\<close>

definition spec_loglik :: "mat \<Rightarrow> mat \<Rightarrow> real \<Rightarrow> vec" where
  "spec_loglik Y C d =
     map (\<lambda>j. - 0.5 * dot (col Y j) (map (\<lambda>r. dot r (col Y j)) C)
               - 0.5 * ln d - (real (nrows Y) / 2) * ln (2 * pi))
         [0..<ncols Y]"

section \<open>The predictor and the credible-interval test (PosteriorProcessTest.cpp, Test1)\<close>

text \<open>
  Modelled from the spec: \<^verbatim>\<open>GaussianProcess::operator()(x1, x2)\<close> and
  \<^verbatim>\<open>GaussianProcess::GetCredibleInterval\<close> live in \<^verbatim>\<open>GaussianProcess.h\<close>, which is
  missing. The specification gives
  \<open>Covariance(x1, x2) = Kernel(x1, x2) - k(x1)\<^sup>T C k(x2)\<close>, with \<open>k(x)\<close> the vector of
  \<open>Kernel(x, input\<^sub>i)\<close> over the training inputs, and
  \<open>CredibleInterval(x) = 2 sqrt(Covariance(x, x))\<close>, both requiring an initialized engine
  and a query of dimension \<open>D_in\<close>. A negative self-covariance is the failure the
  specification calls numerical instability: no interval is computed from it.
\<close>

record predictor =
  Kernel :: "vec \<Rightarrow> vec \<Rightarrow> real"
  Inputs :: "vec list"
  Core :: mat
  Initialized :: bool
  D_in :: nat

definition kernel_vector :: "predictor \<Rightarrow> vec \<Rightarrow> vec" where
  "kernel_vector p x = map (\<lambda>xi. Kernel p x xi) (Inputs p)"

definition Covariance :: "predictor \<Rightarrow> vec \<Rightarrow> vec \<Rightarrow> error + real" where
  "Covariance p x1 x2 =
     (if \<not> Initialized p then Inl Uninitialized
      else if length x1 \<noteq> D_in p \<or> length x2 \<noteq> D_in p then Inl DimensionMismatch
      else Inr (Kernel p x1 x2
                - dot (kernel_vector p x1) (map (\<lambda>r. dot r (kernel_vector p x2)) (Core p))))"

definition GetCredibleInterval :: "predictor \<Rightarrow> vec \<Rightarrow> error + real" where
  "GetCredibleInterval p x =
     (case Covariance p x x of
        Inl e \<Rightarrow> Inl e
      | Inr c \<Rightarrow> if c < 0 then Inl NumericalInstability else Inr (2 * sqrt c))"

text \<open>
  A kernel that is symmetric but not positive semidefinite, to exercise the predictor
  where the self-covariance is negative.
\<close>

definition indefinite_kernel :: "vec \<Rightarrow> vec \<Rightarrow> real" where
  "indefinite_kernel a b = (if a = b then 1 else 2)"

definition indefinite_engine :: predictor where
  \<comment> \<open>one training input \<open>0\<close>; the Gram matrix is \<open>(1)\<close>, and so is its inverse\<close>
  "indefinite_engine =
     \<lparr>Kernel = indefinite_kernel, Inputs = [[0]], Core = [[1]], Initialized = True, D_in = 1\<rparr>"

text \<open>
  The body of the test loop of \<^verbatim>\<open>Test1\<close> is at hand. Whatever is thrown inside the
  \<^verbatim>\<open>try\<close> block, the mismatch included, is caught and thrown again as one message.
  Where \<^verbatim>\<open>std::sqrt\<close> gives NaN the difference \<^verbatim>\<open>c\<close> is NaN, \<^verbatim>\<open>c != 0\<close> holds and the
  test throws.
\<close>

definition number_of_tests :: nat where
  "number_of_tests = 50"

definition test_point :: "nat \<Rightarrow> vec" where
  \<comment> \<open>\<^verbatim>\<open>x(0) = i * 2*M_PI/number_of_tests * 1.3\<close>\<close>
  "test_point i = [real i * 2 * pi / real number_of_tests * 1.3]"

definition Test1_check :: "predictor \<Rightarrow> vec \<Rightarrow> error + unit" where
  "Test1_check gp x =
     (case Covariance gp x x of
        Inl e \<Rightarrow> Inl (Thrown ''error in calculating credible interval.'')
      | Inr v \<Rightarrow>
          (case GetCredibleInterval gp x of
             Inl e \<Rightarrow> Inl (Thrown ''error in calculating credible interval.'')
           | Inr ci \<Rightarrow>
               (case std_sqrt v of
                  None \<Rightarrow> Inl (Thrown ''error in calculating credible interval.'')
                | Some r \<Rightarrow>
                    (let c = 2 * r - ci
                     in if c \<noteq> 0
                        then Inl (Thrown ''error in calculating credible interval.'')
                        else Inr ()))))"

fun Test1_loop :: "predictor \<Rightarrow> nat list \<Rightarrow> error + unit" where
  "Test1_loop gp [] = Inr ()"
| "Test1_loop gp (i # is) =
     (case Test1_check gp (test_point i) of
        Inl e \<Rightarrow> Inl e
      | Inr _ \<Rightarrow> Test1_loop gp is)"

section \<open>Posterior sampling (PosteriorProcessTest.cpp, Test2)\<close>

subsection \<open>Filling the mean vector and the covariance matrix\<close>

text \<open>
  What \<^verbatim>\<open>gp->Predict(x)\<close> and \<^verbatim>\<open>(*gp)(x1, x2)\<close> return is taken as given, as two
  functions of the query points. The matrix is created with \<open>n\<close> rows and \<open>n\<close> columns
  and the iterations only visit indices below \<open>n\<close>, so every write is in range.
\<close>

record posterior =
  Predict :: "vec \<Rightarrow> vec"
  Cov :: "vec \<Rightarrow> vec \<Rightarrow> real"

record fill_state =
  mean :: vec
  Kmat :: mat

definition number_of_samples :: nat where
  "number_of_samples = 50"

definition grid :: "nat \<Rightarrow> nat \<Rightarrow> vec" where
  \<comment> \<open>\<^verbatim>\<open>x(0) = i * 5.0/number_of_samples\<close>\<close>
  "grid n i = [real i * 5 / real n]"

definition set_cell :: "mat \<Rightarrow> nat \<Rightarrow> nat \<Rightarrow> real \<Rightarrow> mat" where
  \<comment> \<open>\<^verbatim>\<open>A(i,j) = v\<close>\<close>
  "set_cell A i j v = A[i := (A ! i)[j := v]]"

definition inner_body :: "posterior \<Rightarrow> nat \<Rightarrow> nat \<Rightarrow> nat \<Rightarrow> mat \<Rightarrow> mat" where
  \<comment> \<open>\<^verbatim>\<open>K(i,j) = (*gp)(x1,x2); K(j,i) = K(i,j);\<close>\<close>
  "inner_body gp n i j A =
     (let A' = set_cell A i j (Cov gp (grid n i) (grid n j))
      in set_cell A' j i (A' ! i ! j))"

definition outer_body :: "posterior \<Rightarrow> nat \<Rightarrow> nat \<Rightarrow> fill_state \<Rightarrow> fill_state" where
  \<comment> \<open>one iteration of the loop over \<^verbatim>\<open>i\<close>\<close>
  "outer_body gp n i s =
     \<lparr>mean = (mean s)[i := Predict gp (grid n i) ! 0],
      Kmat = fold (inner_body gp n i) [i..<n] (Kmat s)\<rparr>"

definition fill_init :: "nat \<Rightarrow> fill_state" where
  \<comment> \<open>\<^verbatim>\<open>VectorType::Zero(n)\<close> and \<^verbatim>\<open>MatrixType::Zero(n,n)\<close>\<close>
  "fill_init n = \<lparr>mean = replicate n 0, Kmat = replicate n (replicate n 0)\<rparr>"

definition fill :: "posterior \<Rightarrow> nat \<Rightarrow> nat list \<Rightarrow> fill_state" where
  \<comment> \<open>the outer loop, its iterations run in the order given\<close>
  "fill gp n order = fold (outer_body gp n) order (fill_init n)"

definition wf_fill :: "nat \<Rightarrow> fill_state \<Rightarrow> bool" where
  \<comment> \<open>the shapes the test creates: a mean vector of length \<open>n\<close>, an \<open>n\<close> x \<open>n\<close> matrix\<close>
  "wf_fill n s \<longleftrightarrow> length (mean s) = n \<and> is_mat n n (Kmat s)"

subsection \<open>Truncated eigendecomposition and draws\<close>

text \<open>
  \<^verbatim>\<open>Eigen::SelfAdjointEigenSolver\<close> is a library: its result, the vector of eigenvalues
  and the matrix whose columns are the eigenvectors, is taken as given. Eigen documents
  the eigenvalues as sorted in increasing order. The threshold \<^verbatim>\<open>1e-10\<close> is the rational
  \<open>1 / 10 ^ 10\<close>. Under that order the kept eigenvalues are above the threshold, so the
  square roots taken of them are those of positive numbers.
\<close>

record eigen_solver =
  eigenvalues :: vec
  eigenvectors :: mat

definition numComponentsToKeep :: "eigen_solver \<Rightarrow> nat" where
  \<comment> \<open>\<^verbatim>\<open>((eigenvalues().array() - 1e-10) > 0).count()\<close>\<close>
  "numComponentsToKeep es = length (filter (\<lambda>l. l - 1 / 10 ^ 10 > 0) (eigenvalues es))"

definition rowwise_reverse :: "mat \<Rightarrow> mat" where
  "rowwise_reverse A = map rev A"

definition topLeftCorner :: "nat \<Rightarrow> nat \<Rightarrow> mat \<Rightarrow> error + mat" where
  "topLeftCorner p q A =
     (if p \<le> nrows A \<and> q \<le> ncols A then Inr (take p (map (take q) A))
      else Inl SizeMismatch)"

definition topRows :: "nat \<Rightarrow> vec \<Rightarrow> error + vec" where
  "topRows q v = (if q \<le> length v then Inr (take q v) else Inl SizeMismatch)"

definition rot_of :: "eigen_solver \<Rightarrow> mat \<Rightarrow> error + mat" where
  \<comment> \<open>\<^verbatim>\<open>eigenvectors().rowwise().reverse().topLeftCorner(K.rows(), numComponentsToKeep)\<close>\<close>
  "rot_of es A =
     topLeftCorner (nrows A) (numComponentsToKeep es) (rowwise_reverse (eigenvectors es))"

definition scl_of :: "eigen_solver \<Rightarrow> error + vec" where
  \<comment> \<open>\<^verbatim>\<open>eigenvalues().reverse().topRows(numComponentsToKeep).array().sqrt()\<close>\<close>
  "scl_of es =
     (case topRows (numComponentsToKeep es) (rev (eigenvalues es)) of
        Inl e \<Rightarrow> Inl e
      | Inr v \<Rightarrow> Inr (map sqrt v))"

definition draw :: "mat \<Rightarrow> vec \<Rightarrow> vec \<Rightarrow> vec \<Rightarrow> error + vec" where
  \<comment> \<open>\<^verbatim>\<open>rot * VectorType(z.array() * scl.array()) + mean\<close>\<close>
  "draw rot scl m z =
     (case cwise_mul z scl of
        Inl e \<Rightarrow> Inl e
      | Inr v \<Rightarrow> (case mat_vec rot v of Inl e \<Rightarrow> Inl e | Inr w \<Rightarrow> vec_add w m))"

text \<open>
  The draw as the specification words it: \<open>Q z + mean\<close> with
  \<open>Q = eigenvectors_kept \<cdot> diag(sqrt(eigenvalues_kept))\<close>, the matrix that line 143 of the
  test builds as \<^verbatim>\<open>rot*scl.asDiagonal()\<close>.
\<close>

definition Q_of :: "mat \<Rightarrow> vec \<Rightarrow> error + mat" where
  "Q_of rot scl = mat_mul rot (asDiagonal scl)"

definition spec_draw :: "mat \<Rightarrow> vec \<Rightarrow> vec \<Rightarrow> vec \<Rightarrow> error + vec" where
  "spec_draw rot scl m z =
     (case Q_of rot scl of
        Inl e \<Rightarrow> Inl e
      | Inr Q \<Rightarrow> (case mat_vec Q z of Inl e \<Rightarrow> Inl e | Inr w \<Rightarrow> vec_add w m))"



text \<open>
  The noise source \<^verbatim>\<open>GetRandomVector\<close> keeps a static generator; it is modelled as the
  stream of deviates still to come.
\<close>

definition GetRandomVector :: "nat \<Rightarrow> (nat \<Rightarrow> real) \<Rightarrow> vec \<times> (nat \<Rightarrow> real)" where
  "GetRandomVector n gen = (map gen [0..<n], \<lambda>i. gen (i + n))"

definition Test2_draw :: "eigen_solver \<Rightarrow> mat \<Rightarrow> vec \<Rightarrow> (nat \<Rightarrow> real) \<Rightarrow> error + vec" where
  \<comment> \<open>lines 139 to 141 and the draw of line 151\<close>
  "Test2_draw es A m gen =
     (case rot_of es A of
        Inl e \<Rightarrow> Inl e
      | Inr rot \<Rightarrow>
          (case scl_of es of
             Inl e \<Rightarrow> Inl e
           | Inr scl \<Rightarrow> draw rot scl m (fst (GetRandomVector number_of_samples gen))))"

section \<open>Basic facts about vectors and matrices\<close>

lemma upt_1: "[0..<1] = [0]"
  by (simp add: upt_rec)

lemma upt_2: "[0..<2] = [0, 1]"
  by (simp add: upt_rec)

lemma dot_nth:
  assumes "length a = length b"
  shows "dot a b = (\<Sum>i<length a. a ! i * b ! i)"
proof -
  have "dot a b = (\<Sum>i = 0..<length (map2 (*) a b). map2 (*) a b ! i)"
    unfolding dot_def by (rule sum_list_sum_nth)
  also have "\<dots> = (\<Sum>i = 0..<length a. a ! i * b ! i)"
    using assms by (intro sum.cong) simp_all
  finally show ?thesis by (simp add: atLeast0LessThan)
qed

lemma ncols_is_mat: "is_mat n m A \<Longrightarrow> 0 < n \<Longrightarrow> ncols A = m"
  by (cases A) (auto simp: is_mat_def ncols_def)


section \<open>Properties of the likelihood\<close>

lemma ln_two_pi_pos: "0 < ln (2 * pi)"
proof -
  have "(1::real) < 2 * pi" using pi_ge_two by linarith
  then show ?thesis by simp
qed

lemma data_fit_single: "data_fit [[y]] [[c]] = Inr [- (y * c * y) / 2]"
  by (simp add: data_fit_def mat_mul_def adjoint_def ncols_def nrows_def col_def dot_def
      as_vector_def smult_def)

text \<open>
  C9. The operator of the base class \<^verbatim>\<open>Likelihood\<close> throws the message
  "Likelihood: operator() is not implemented." for every engine it is given, and returns
  a vector for none.
\<close>

theorem Likelihood_call_not_implemented:
  "Likelihood_call gp = Inl (Thrown ''Likelihood: operator() is not implemented.'')
   \<and> (\<forall>v. Likelihood_call gp \<noteq> Inr v)"
  by (simp add: Likelihood_call_def)

text \<open>
  C1. The claim gives the constant term as the real number \<open>N/2\<close> times \<open>log(2 \<pi>)\<close>, for odd
  \<open>N\<close> too. The code divides the integer \<open>-N\<close> by the integer \<open>2\<close>: with one sample, label
  \<open>0\<close>, core matrix \<open>(1)\<close> and determinant \<open>1\<close> it returns \<open>0\<close>, where the specified value is
  \<open>- log(2 \<pi>) / 2\<close>.
\<close>

theorem GaussianLogLikelihood_one_sample:
  "GaussianLogLikelihood_call \<lparr>LabelMatrix = [[0]], CoreMatrix = [[1]], Determinant = 1\<rparr>
     = Inr [0]
   \<and> spec_loglik [[0]] [[1]] 1 = [- (ln (2 * pi) / 2)]
   \<and> GaussianLogLikelihood_call \<lparr>LabelMatrix = [[0]], CoreMatrix = [[1]], Determinant = 1\<rparr>
       \<noteq> Inr (spec_loglik [[0]] [[1]] 1)"
proof -
  have code: "GaussianLogLikelihood_call
      \<lparr>LabelMatrix = [[0]], CoreMatrix = [[1]], Determinant = 1\<rparr> = Inr [0]"
    by (simp add: GaussianLogLikelihood_call_def GetLabelMatrix_def GetCoreMatrix_def
        data_fit_single constant_term_def nrows_def signed_divide_int_def)
  have spec: "spec_loglik [[0]] [[1]] 1 = [- (ln (2 * pi) / 2)]"
    by (simp add: spec_loglik_def ncols_def nrows_def col_def dot_def)
  show ?thesis using code spec ln_two_pi_pos by simp
qed

text \<open>
  With two output columns the product \<open>Y\<^sup>T C Y\<close> is a 2 x 2 matrix, which line 88 assigns to
  a column vector: no diagonal is taken.
\<close>

lemma GaussianLogLikelihood_two_outputs:
  "GaussianLogLikelihood_call
     \<lparr>LabelMatrix = [[1, 0], [0, 1]], CoreMatrix = [[1, 0], [0, 1]], Determinant = 1\<rparr>
   = Inl SizeMismatch"
  by (simp add: GaussianLogLikelihood_call_def GetLabelMatrix_def GetCoreMatrix_def
      data_fit_def mat_mul_def adjoint_def ncols_def nrows_def col_def dot_def as_vector_def
      smult_def)

lemma constant_term_even:
  assumes "even (nrows C)"
  shows "constant_term C = - (real (nrows C) / 2) * ln (2 * pi)"
proof -
  from assms obtain m where m: "nrows C = 2 * m" by (auto elim: evenE)
  have "(- int (2 * m)) sdiv 2 = - int m"
    by (cases "m = 0") (simp_all add: signed_divide_int_def)
  then show ?thesis by (simp add: constant_term_def m)
qed

lemma quadratic_form_assoc:
  assumes "length y = n" and "is_mat n n C"
  shows "dot (map (\<lambda>j. dot y (col C j)) [0..<n]) y = dot y (map (\<lambda>r. dot r y) C)"
proof -
  have rows: "\<And>i. i < n \<Longrightarrow> length (C ! i) = n" and len: "length C = n"
    using assms(2) by (simp_all add: is_mat_def list_all_iff)
  have "dot (map (\<lambda>j. dot y (col C j)) [0..<n]) y
        = (\<Sum>j<n. dot y (col C j) * y ! j)"
    using assms(1) by (subst dot_nth) simp_all
  also have "\<dots> = (\<Sum>j<n. (\<Sum>i<n. y ! i * C ! i ! j) * y ! j)"
    using assms(1) len by (intro sum.cong refl, subst dot_nth) (simp_all add: col_def)
  also have "\<dots> = (\<Sum>j<n. \<Sum>i<n. y ! i * (C ! i ! j * y ! j))"
    by (simp add: sum_distrib_right mult.assoc)
  also have "\<dots> = (\<Sum>i<n. \<Sum>j<n. y ! i * (C ! i ! j * y ! j))"
    by (rule sum.swap)
  also have "\<dots> = (\<Sum>i<n. y ! i * (\<Sum>j<n. C ! i ! j * y ! j))"
    by (simp add: sum_distrib_left)
  also have "\<dots> = (\<Sum>i<n. y ! i * dot (C ! i) y)"
    using assms(1) rows by (intro sum.cong refl, subst dot_nth) simp_all
  also have "\<dots> = dot y (map (\<lambda>r. dot r y) C)"
    using assms(1) len by (subst dot_nth) simp_all
  finally show ?thesis .
qed

lemma data_fit_single_output:
  assumes "is_mat n 1 Y" and "is_mat n n C" and "0 < n"
  shows "data_fit Y C = Inr [- 0.5 * dot (col Y 0) (map (\<lambda>r. dot r (col Y 0)) C)]"
proof -
  have ncY: "ncols Y = 1" and ncC: "ncols C = n"
    using assms by (simp_all add: ncols_is_mat)
  have lenY: "length Y = n" and lenC: "length C = n"
    using assms by (simp_all add: is_mat_def)
  have ly: "length (col Y 0) = n" by (simp add: col_def lenY)
  have adj: "adjoint Y = [col Y 0]" by (simp add: adjoint_def ncY upt_1)
  have m1: "mat_mul (adjoint Y) C = Inr [map (\<lambda>j. dot (col Y 0) (col C j)) [0..<n]]"
    by (simp add: mat_mul_def adj ncols_def nrows_def ly lenC ncC [unfolded ncols_def])
  have m2: "mat_mul [map (\<lambda>j. dot (col Y 0) (col C j)) [0..<n]] Y
            = Inr [[dot (map (\<lambda>j. dot (col Y 0) (col C j)) [0..<n]) (col Y 0)]]"
    by (simp add: mat_mul_def ncols_def nrows_def lenY ncY [unfolded ncols_def] upt_1)
  define q where "q = dot (map (\<lambda>j. dot (col Y 0) (col C j)) [0..<n]) (col Y 0)"
  have "data_fit Y C = as_vector (smult (- 0.5) [[q]])"
    by (simp only: data_fit_def m1 m2 sum.case q_def)
  also have "\<dots> = Inr [- 0.5 * q]"
    by (simp add: smult_def as_vector_def ncols_def col_def)
  finally show ?thesis
    unfolding q_def quadratic_form_assoc [OF ly assms(2)] .
qed

text \<open>
  Where the code and the specified likelihood agree: one output column, an even number of
  samples, a positive determinant.
\<close>

lemma GaussianLogLikelihood_even_single_output:
  assumes "is_mat n 1 (LabelMatrix gp)" and "is_mat n n (CoreMatrix gp)" and "0 < n"
    and "even n" and "0 < Determinant gp"
  shows "GaussianLogLikelihood_call gp
         = Inr (spec_loglik (LabelMatrix gp) (CoreMatrix gp) (Determinant gp))"
proof -
  have ncY: "ncols (LabelMatrix gp) = 1"
    using assms by (simp add: ncols_is_mat)
  have nr: "nrows (CoreMatrix gp) = n" "nrows (LabelMatrix gp) = n"
    using assms by (simp_all add: is_mat_def nrows_def)
  show ?thesis
    using assms(5)
    by (simp add: GaussianLogLikelihood_call_def GetLabelMatrix_def GetCoreMatrix_def
        data_fit_single_output [OF assms(1,2,3)] constant_term_even nr assms(4)
        spec_loglik_def ncY upt_1)
qed

text \<open>
  What the determinant check of lines 91 to 93 does: the message is thrown only for a
  determinant at most zero; with such a determinant no vector is returned; and once the
  data-fit vector of line 88 is formed, the message is thrown exactly when the determinant
  is at most zero.
\<close>

lemma determinant_check:
  "(GaussianLogLikelihood_call gp
      = Inl (Thrown ''GaussianLogLikelihood: determinant of K is smaller or equal to zero.'')
    \<longrightarrow> Determinant gp \<le> 0)
   \<and> (Determinant gp \<le> 0 \<longrightarrow> (\<forall>v. GaussianLogLikelihood_call gp \<noteq> Inr v))
   \<and> (\<forall>df. data_fit (LabelMatrix gp) (CoreMatrix gp) = Inr df \<longrightarrow>
        (GaussianLogLikelihood_call gp
           = Inl (Thrown ''GaussianLogLikelihood: determinant of K is smaller or equal to zero.'')
         \<longleftrightarrow> Determinant gp \<le> 0)
        \<and> (0 < Determinant gp \<longrightarrow> (\<exists>v. GaussianLogLikelihood_call gp = Inr v)))"
  by (auto simp: GaussianLogLikelihood_call_def GetLabelMatrix_def GetCoreMatrix_def Let_def
      data_fit_def mat_mul_def as_vector_def split: sum.splits if_splits)

text \<open>
  C2. The claim has the operator fail with the determinant message whenever the
  determinant is at most zero. Take two samples with two outputs, labels the unit matrix,
  \<open>K + sigma I\<close> the matrix with rows \<open>(1, 2)\<close> and \<open>(2, 1)\<close>, of determinant \<open>-3\<close>, and the core
  matrix its inverse. Line 88, which runs before the determinant is looked at, assigns the
  2 x 2 product \<open>Y\<^sup>T C Y\<close> to a column vector: the operator fails there, and the
  determinant message is not what it fails with.
\<close>

theorem GaussianLogLikelihood_two_outputs_negative_determinant:
  "Determinant \<lparr>LabelMatrix = [[1, 0], [0, 1]],
                CoreMatrix = [[- (1 / 3), 2 / 3], [2 / 3, - (1 / 3)]], Determinant = - 3\<rparr> \<le> 0
   \<and> GaussianLogLikelihood_call
       \<lparr>LabelMatrix = [[1, 0], [0, 1]],
        CoreMatrix = [[- (1 / 3), 2 / 3], [2 / 3, - (1 / 3)]], Determinant = - 3\<rparr>
     = Inl SizeMismatch
   \<and> GaussianLogLikelihood_call
       \<lparr>LabelMatrix = [[1, 0], [0, 1]],
        CoreMatrix = [[- (1 / 3), 2 / 3], [2 / 3, - (1 / 3)]], Determinant = - 3\<rparr>
     \<noteq> Inl (Thrown ''GaussianLogLikelihood: determinant of K is smaller or equal to zero.'')"
  by (simp add: GaussianLogLikelihood_call_def GetLabelMatrix_def GetCoreMatrix_def
      data_fit_def mat_mul_def adjoint_def ncols_def nrows_def col_def dot_def as_vector_def
      smult_def)

section \<open>Properties of the credible-interval test\<close>

lemma Test1_check_ok:
  assumes "Initialized gp" and "length x = D_in gp"
    and "Covariance gp x x = Inr c" and "0 \<le> c"
  shows "Test1_check gp x = Inr ()"
  using assms by (simp add: GetCredibleInterval_def Test1_check_def std_sqrt_def)

lemma Test1_loop_ok:
  assumes "Initialized gp" and "D_in gp = 1"
    and "\<forall>i \<in> set is. \<forall>c. Covariance gp (test_point i) (test_point i) = Inr c \<longrightarrow> 0 \<le> c"
  shows "Test1_loop gp is = Inr ()"
  using assms(3)
proof (induction "is")
  case Nil
  then show ?case by simp
next
  case (Cons i "is")
  have len: "length (test_point i) = D_in gp"
    using assms(2) by (simp add: test_point_def)
  obtain c where c: "Covariance gp (test_point i) (test_point i) = Inr c"
    using assms(1) len by (simp add: Covariance_def)
  with Cons.prems have "0 \<le> c" by simp
  from Test1_check_ok [OF assms(1) len c this] Cons show ?case by simp
qed

text \<open>
  C3, as stated, fails where the self-covariance is negative. The engine with the
  indefinite kernel is initialized and the point \<open>1\<close> has the dimension of its inputs; the
  covariance of the point with itself is \<open>-3\<close>; no credible interval is computed, and the
  check of \<^verbatim>\<open>Test1\<close> throws.
\<close>

theorem credible_interval_negative_covariance:
  "Initialized indefinite_engine
   \<and> length [1 :: real] = D_in indefinite_engine
   \<and> Covariance indefinite_engine [1] [1] = Inr (- 3)
   \<and> GetCredibleInterval indefinite_engine [1] = Inl NumericalInstability
   \<and> GetCredibleInterval indefinite_engine [1] \<noteq> Inr (2 * sqrt (- 3))
   \<and> Test1_check indefinite_engine [1]
       = Inl (Thrown ''error in calculating credible interval.'')"
  by (simp add: indefinite_engine_def indefinite_kernel_def Covariance_def
      GetCredibleInterval_def Test1_check_def kernel_vector_def dot_def)

text \<open>
  C3, amended. On an initialized engine and a query point of dimension \<open>D_in\<close> the
  covariance of the point with itself is computed; where it is not negative, the credible
  interval is computed too, twice the square root of that covariance minus the credible
  interval is zero, and the check of \<^verbatim>\<open>Test1\<close> passes at that point. With inputs of
  dimension one and no negative self-covariance at the fifty test points, the loop of
  \<^verbatim>\<open>Test1\<close> passes.
\<close>

theorem credible_interval_identity:
  assumes "Initialized gp" and "length x = D_in gp"
  shows "\<exists>c. Covariance gp x x = Inr c
           \<and> (0 \<le> c \<longrightarrow>
                (\<exists>r ci. std_sqrt c = Some r \<and> GetCredibleInterval gp x = Inr ci
                   \<and> 2 * r - ci = 0 \<and> ci = 2 * sqrt c \<and> Test1_check gp x = Inr ()))
           \<and> (D_in gp = 1 \<longrightarrow>
                (\<forall>i < number_of_tests. \<forall>c'.
                   Covariance gp (test_point i) (test_point i) = Inr c' \<longrightarrow> 0 \<le> c') \<longrightarrow>
                Test1_loop gp [0..<number_of_tests] = Inr ())"
proof -
  obtain c where c: "Covariance gp x x = Inr c"
    using assms by (simp add: Covariance_def)
  have point: "\<exists>r ci. std_sqrt c = Some r \<and> GetCredibleInterval gp x = Inr ci
                 \<and> 2 * r - ci = 0 \<and> ci = 2 * sqrt c \<and> Test1_check gp x = Inr ()"
    if "0 \<le> c"
    using that c Test1_check_ok [OF assms c that]
    by (simp add: GetCredibleInterval_def std_sqrt_def)
  have loop: "Test1_loop gp [0..<number_of_tests] = Inr ()"
    if "D_in gp = 1"
      and "\<forall>i < number_of_tests. \<forall>c'.
             Covariance gp (test_point i) (test_point i) = Inr c' \<longrightarrow> 0 \<le> c'"
    using that by (intro Test1_loop_ok [OF assms(1)]) simp_all
  from c point loop show ?thesis by blast
qed

theorem credible_interval_identity_witness:
  "Initialized \<lparr>Kernel = (\<lambda>a b. 1), Inputs = [[0]], Core = [[1 / 2]],
                Initialized = True, D_in = 1\<rparr>
   \<and> length [3 :: real] = D_in \<lparr>Kernel = (\<lambda>a b. 1), Inputs = [[0]], Core = [[1 / 2]],
                Initialized = True, D_in = 1\<rparr>
   \<and> Covariance \<lparr>Kernel = (\<lambda>a b. 1), Inputs = [[0]], Core = [[1 / 2]],
                Initialized = True, D_in = 1\<rparr> [3] [3] = Inr (1 / 2)
   \<and> (0 :: real) \<le> 1 / 2
   \<and> GetCredibleInterval \<lparr>Kernel = (\<lambda>a b. 1), Inputs = [[0]], Core = [[1 / 2]],
                Initialized = True, D_in = 1\<rparr> [3] = Inr (2 * sqrt (1 / 2))
   \<and> Test1_check \<lparr>Kernel = (\<lambda>a b. 1), Inputs = [[0]], Core = [[1 / 2]],
                Initialized = True, D_in = 1\<rparr> [3] = Inr ()
   \<and> Test1_loop \<lparr>Kernel = (\<lambda>a b. 1), Inputs = [[0]], Core = [[1 / 2]],
                Initialized = True, D_in = 1\<rparr> [0..<number_of_tests] = Inr ()"
  using credible_interval_identity
    [of "\<lparr>Kernel = (\<lambda>a b. 1), Inputs = [[0]], Core = [[1 / 2]],
          Initialized = True, D_in = 1\<rparr>" "[3]"]
  by (auto simp: Covariance_def GetCredibleInterval_def kernel_vector_def dot_def test_point_def)

section \<open>Properties of the matrix fill\<close>

lemma set_cell_nth:
  assumes "i < length A" and "j < length (A ! i)"
  shows "set_cell A i j v ! a ! b = (if a = i \<and> b = j then v else A ! a ! b)"
  using assms by (cases "a = i"; cases "b = j") (simp_all add: set_cell_def)

lemma is_mat_set_cell:
  assumes "is_mat n m A"
  shows "is_mat n m (set_cell A i j v)"
proof (cases "i < length A")
  case True
  have sub: "set (A[i := (A ! i)[j := v]]) \<subseteq> insert ((A ! i)[j := v]) (set A)"
    by (rule set_update_subset_insert)
  have "length ((A ! i)[j := v]) = m"
    using assms True by (simp add: is_mat_def list_all_iff)
  with sub assms show ?thesis
    by (auto simp: is_mat_def list_all_iff set_cell_def)
next
  case False
  then have "set_cell A i j v = A" by (simp add: set_cell_def list_update_beyond)
  with assms show ?thesis by simp
qed

lemma is_mat_row: "is_mat n m A \<Longrightarrow> i < n \<Longrightarrow> length (A ! i) = m"
  by (simp add: is_mat_def list_all_iff)

lemma is_mat_rows: "is_mat n m A \<Longrightarrow> length A = n"
  by (simp add: is_mat_def)

lemma inner_body_cell:
  assumes "is_mat n n A" and "i < n" and "j < n"
  shows "inner_body gp n i j A ! a ! b =
           (if (a = i \<and> b = j) \<or> (a = j \<and> b = i) then Cov gp (grid n i) (grid n j)
            else A ! a ! b)"
proof -
  define v where "v = Cov gp (grid n i) (grid n j)"
  define A' where "A' = set_cell A i j v"
  have A': "is_mat n n A'" unfolding A'_def by (rule is_mat_set_cell [OF assms(1)])
  have c1: "A' ! a ! b = (if a = i \<and> b = j then v else A ! a ! b)" for a b
    unfolding A'_def using assms by (intro set_cell_nth) (simp_all add: is_mat_rows is_mat_row)
  have c2: "set_cell A' j i w ! a ! b = (if a = j \<and> b = i then w else A' ! a ! b)" for w
    using assms A' by (intro set_cell_nth) (simp_all add: is_mat_rows is_mat_row)
  have eq: "inner_body gp n i j A = set_cell A' j i (A' ! i ! j)"
    by (simp add: inner_body_def Let_def A'_def v_def)
  have e1: "A' ! i ! j = v" by (simp only: c1 simp_thms if_True)
  have "inner_body gp n i j A ! a ! b = (if a = j \<and> b = i then v else A' ! a ! b)"
    unfolding eq e1 by (rule c2)
  also have "\<dots> = (if a = j \<and> b = i then v else if a = i \<and> b = j then v else A ! a ! b)"
    by (simp only: c1)
  also have "\<dots> = (if (a = i \<and> b = j) \<or> (a = j \<and> b = i) then v else A ! a ! b)"
    by argo
  finally show ?thesis unfolding v_def .
qed

lemma is_mat_inner_body:
  "is_mat n n A \<Longrightarrow> is_mat n n (inner_body gp n i j A)"
  by (simp add: inner_body_def Let_def is_mat_set_cell)

lemma inner_loop:
  assumes "is_mat n n A" and "i < n" and "i \<le> t" and "t \<le> n"
  shows "is_mat n n (fold (inner_body gp n i) [i..<t] A)
         \<and> (\<forall>a b. fold (inner_body gp n i) [i..<t] A ! a ! b =
              (if (a = i \<and> i \<le> b \<and> b < t) \<or> (b = i \<and> i \<le> a \<and> a < t)
               then Cov gp (grid n i) (grid n (max a b))
               else A ! a ! b))"
  using assms(3,4)
proof (induction t)
  case 0
  then show ?case using assms(1) by simp
next
  case (Suc t)
  show ?case
  proof (cases "i = Suc t")
    case True
    then show ?thesis using assms(1) by auto
  next
    case False
    with Suc.prems have it: "i \<le> t" and tn: "t < n" by simp_all
    define B where "B = fold (inner_body gp n i) [i..<t] A"
    from Suc.IH it tn have B: "is_mat n n B"
      and cell: "\<And>a b. B ! a ! b =
              (if (a = i \<and> i \<le> b \<and> b < t) \<or> (b = i \<and> i \<le> a \<and> a < t)
               then Cov gp (grid n i) (grid n (max a b))
               else A ! a ! b)"
      unfolding B_def by simp_all
    have step: "fold (inner_body gp n i) [i..<Suc t] A = inner_body gp n i t B"
      using it by (simp add: B_def)
    have m1: "max i t = t" and m2: "max t i = t" using it by simp_all
    show ?thesis
      unfolding step
      using is_mat_inner_body [OF B, of gp i t] inner_body_cell [OF B assms(2) tn, of gp] cell it m1 m2
      by (auto simp: less_Suc_eq)
  qed
qed


lemma wf_fill_init: "wf_fill n (fill_init n)"
  by (simp add: wf_fill_def fill_init_def is_mat_def list_all_iff)

lemma outer_body_wf:
  assumes "wf_fill n s" and "i < n"
  shows "wf_fill n (outer_body gp n i s)"
  using assms inner_loop [of n "Kmat s" i n gp]
  by (simp add: wf_fill_def outer_body_def)

lemma outer_body_cell:
  assumes "wf_fill n s" and "i < n" and "a < n" and "b < n"
  shows "Kmat (outer_body gp n i s) ! a ! b =
           (if min a b = i then Cov gp (grid n i) (grid n (max a b)) else Kmat s ! a ! b)"
proof -
  have "Kmat (outer_body gp n i s) ! a ! b =
          (if (a = i \<and> i \<le> b \<and> b < n) \<or> (b = i \<and> i \<le> a \<and> a < n)
           then Cov gp (grid n i) (grid n (max a b)) else Kmat s ! a ! b)"
    using assms(1,2) inner_loop [of n "Kmat s" i n gp]
    by (simp add: wf_fill_def outer_body_def)
  moreover have "(a = i \<and> i \<le> b \<and> b < n) \<or> (b = i \<and> i \<le> a \<and> a < n) \<longleftrightarrow> min a b = i"
    using assms(3,4) by (auto simp: min_def)
  ultimately show ?thesis by simp
qed

lemma outer_body_mean:
  assumes "wf_fill n s" and "i < n" and "a < n"
  shows "mean (outer_body gp n i s) ! a =
           (if a = i then Predict gp (grid n i) ! 0 else mean s ! a)"
  using assms by (simp add: wf_fill_def outer_body_def nth_list_update)

lemma fold_outer_body:
  assumes "wf_fill n s" and "\<forall>i \<in> set order. i < n"
  shows "wf_fill n (fold (outer_body gp n) order s)
         \<and> (\<forall>a < n. \<forall>b < n. Kmat (fold (outer_body gp n) order s) ! a ! b =
               (if min a b \<in> set order then Cov gp (grid n (min a b)) (grid n (max a b))
                else Kmat s ! a ! b))
         \<and> (\<forall>a < n. mean (fold (outer_body gp n) order s) ! a =
               (if a \<in> set order then Predict gp (grid n a) ! 0 else mean s ! a))"
  using assms
proof (induction order arbitrary: s)
  case Nil
  then show ?case by simp
next
  case (Cons i order)
  from Cons.prems have i: "i < n" and rest: "\<forall>i \<in> set order. i < n" by simp_all
  have wf: "wf_fill n (outer_body gp n i s)"
    by (rule outer_body_wf [OF Cons.prems(1) i])
  note ih = Cons.IH [OF wf rest]
  show ?case
    using ih outer_body_cell [OF Cons.prems(1) i, of _ _ gp] outer_body_mean [OF Cons.prems(1) i, of _ gp]
    by (simp add: min_def)
qed


lemma fill_closed_form:
  assumes "set order = {..<n}"
  shows "fill gp n order =
           \<lparr>mean = map (\<lambda>a. Predict gp (grid n a) ! 0) [0..<n],
            Kmat = map (\<lambda>a. map (\<lambda>b. Cov gp (grid n (min a b)) (grid n (max a b))) [0..<n])
                     [0..<n]\<rparr>"
proof -
  define s where "s = fill gp n order"
  have bound: "\<forall>i \<in> set order. i < n" using assms by simp
  note f = fold_outer_body [OF wf_fill_init bound, of gp, folded fill_def, folded s_def]
  from f have wf: "wf_fill n s" by blast
  from f assms have cell: "Kmat s ! a ! b = Cov gp (grid n (min a b)) (grid n (max a b))"
    if "a < n" and "b < n" for a b
    using that by (simp add: min_def)
  from f assms have mn: "mean s ! a = Predict gp (grid n a) ! 0" if "a < n" for a
    using that by simp
  have lm: "length (mean s) = n" and lk: "length (Kmat s) = n"
    and lr: "\<And>a. a < n \<Longrightarrow> length (Kmat s ! a) = n"
    using wf by (simp_all add: wf_fill_def is_mat_def list_all_iff)
  have m: "mean s = map (\<lambda>a. Predict gp (grid n a) ! 0) [0..<n]"
    using lm mn by (intro nth_equalityI) simp_all
  have row: "Kmat s ! a = map (\<lambda>b. Cov gp (grid n (min a b)) (grid n (max a b))) [0..<n]"
    if "a < n" for a
    using lr [OF that] cell [OF that] by (intro nth_equalityI) simp_all
  have k: "Kmat s = map (\<lambda>a. map (\<lambda>b. Cov gp (grid n (min a b)) (grid n (max a b))) [0..<n])
                     [0..<n]"
    using lk row by (intro nth_equalityI) simp_all
  show ?thesis unfolding s_def [symmetric] using m k by simp
qed

text \<open>
  C8. Let the iterations of the outer loop run in any order, each exactly once. The filled
  state, matrix and mean vector, is the one of the order \<open>0, 1, \<dots>, n - 1\<close>; cell \<open>(a, b)\<close>
  holds the covariance of the grid points \<open>min a b\<close> and \<open>max a b\<close>, so the matrix is
  symmetric; and on any state of the right shape, iteration \<open>i\<close> leaves cell \<open>(a, b)\<close> as it
  is unless \<open>i = min a b\<close>, in which case it sets the cell and its mirror to that
  covariance: the cell is written by iteration \<open>min a b\<close> and by no other.
\<close>

theorem fill_order_independent:
  assumes "mset order = mset [0..<n]"
  shows "fill gp n order = fill gp n [0..<n]
       \<and> (\<forall>a < n. \<forall>b < n.
             Kmat (fill gp n order) ! a ! b = Cov gp (grid n (min a b)) (grid n (max a b))
           \<and> Kmat (fill gp n order) ! a ! b = Kmat (fill gp n order) ! b ! a)
       \<and> (\<forall>a < n. mean (fill gp n order) ! a = Predict gp (grid n a) ! 0)
       \<and> (\<forall>s i a b. wf_fill n s \<longrightarrow> i < n \<longrightarrow> a < n \<longrightarrow> b < n \<longrightarrow>
             (i \<noteq> min a b \<longrightarrow> Kmat (outer_body gp n i s) ! a ! b = Kmat s ! a ! b)
           \<and> (i = min a b \<longrightarrow>
                 Kmat (outer_body gp n i s) ! a ! b = Cov gp (grid n i) (grid n (max a b))
               \<and> Kmat (outer_body gp n i s) ! b ! a = Cov gp (grid n i) (grid n (max a b))))"
proof -
  from assms have "set order = set [0..<n]" by (rule mset_eq_setD)
  then have so: "set order = {..<n}" by (simp add: atLeast0LessThan)
  have s0: "set [0..<n] = {..<n}" by (simp add: atLeast0LessThan)
  have eq: "fill gp n order = fill gp n [0..<n]"
    by (simp only: fill_closed_form [OF so] fill_closed_form [OF s0])
  have cells: "Kmat (fill gp n order) ! a ! b = Cov gp (grid n (min a b)) (grid n (max a b))"
    if "a < n" and "b < n" for a b
    using that by (simp add: fill_closed_form [OF so])
  have sym: "Kmat (fill gp n order) ! a ! b = Kmat (fill gp n order) ! b ! a"
    if "a < n" and "b < n" for a b
    using cells [OF that] cells [OF that(2) that(1)] by (simp add: min.commute max.commute)
  have mn: "mean (fill gp n order) ! a = Predict gp (grid n a) ! 0" if "a < n" for a
    using that by (simp add: fill_closed_form [OF so])
  have once: "(i \<noteq> min a b \<longrightarrow> Kmat (outer_body gp n i s) ! a ! b = Kmat s ! a ! b)
           \<and> (i = min a b \<longrightarrow>
                 Kmat (outer_body gp n i s) ! a ! b = Cov gp (grid n i) (grid n (max a b))
               \<and> Kmat (outer_body gp n i s) ! b ! a = Cov gp (grid n i) (grid n (max a b)))"
    if "wf_fill n s" and "i < n" and "a < n" and "b < n" for s i a b
    using outer_body_cell [OF that(1,2,3,4), of gp] outer_body_cell [OF that(1,2,4,3), of gp]
    by (auto simp: min.commute max.commute)
  show ?thesis using eq cells sym mn once by blast
qed


theorem fill_order_independent_witness:
  "mset [1, 0] = mset [0..<2]
   \<and> fill \<lparr>Predict = (\<lambda>x. x), Cov = (\<lambda>x y. x ! 0 + 2 * y ! 0)\<rparr> 2 [1, 0]
       = fill \<lparr>Predict = (\<lambda>x. x), Cov = (\<lambda>x y. x ! 0 + 2 * y ! 0)\<rparr> 2 [0..<2]
   \<and> Kmat (fill \<lparr>Predict = (\<lambda>x. x), Cov = (\<lambda>x y. x ! 0 + 2 * y ! 0)\<rparr> 2 [1, 0])
       = [[0, 5], [5, 15 / 2]]
   \<and> mean (fill \<lparr>Predict = (\<lambda>x. x), Cov = (\<lambda>x y. x ! 0 + 2 * y ! 0)\<rparr> 2 [1, 0])
       = [0, 5 / 2]
   \<and> wf_fill 2 (fill_init 2)
   \<and> Kmat (outer_body \<lparr>Predict = (\<lambda>x. x), Cov = (\<lambda>x y. x ! 0 + 2 * y ! 0)\<rparr> 2 1
             (fill_init 2)) ! 0 ! 1 = 0
   \<and> Kmat (outer_body \<lparr>Predict = (\<lambda>x. x), Cov = (\<lambda>x y. x ! 0 + 2 * y ! 0)\<rparr> 2 0
             (fill_init 2)) ! 0 ! 1 = 5"
  using fill_order_independent
    [of "[1, 0]" 2 "\<lparr>Predict = (\<lambda>x. x), Cov = (\<lambda>x y. x ! 0 + 2 * y ! 0)\<rparr>"]
  by (simp add: upt_2 fill_def fill_init_def outer_body_def inner_body_def set_cell_def grid_def
      wf_fill_def is_mat_def numeral_2_eq_2 upt_rec)

section \<open>Properties of the truncation\<close>

lemma sorted_filter_upper:
  fixes xs :: "real list"
  assumes "sorted xs"
  shows "filter (\<lambda>l. e < l) xs = drop (length xs - length (filter (\<lambda>l. e < l) xs)) xs
         \<and> (\<forall>x \<in> set (take (length xs - length (filter (\<lambda>l. e < l) xs)) xs). \<not> e < x)"
  using assms
proof (induction xs)
  case Nil
  then show ?case by simp
next
  case (Cons x xs)
  show ?case
  proof (cases "e < x")
    case True
    from Cons.prems True have "\<forall>y \<in> set xs. e < y" by auto
    then have "filter (\<lambda>l. e < l) (x # xs) = x # xs" using True by simp
    then show ?thesis
      by (simp only: diff_self_eq_0 drop_0 take_0 list.set ball_empty simp_thms)
  next
    case False
    define k where "k = length (filter (\<lambda>l. e < l) xs)"
    have le: "k \<le> length xs" by (simp add: k_def)
    from Cons.prems have "sorted xs" by simp
    from Cons.IH [OF this] have ih: "filter (\<lambda>l. e < l) xs = drop (length xs - k) xs"
      and ih2: "\<forall>x \<in> set (take (length xs - k) xs). \<not> e < x"
      unfolding k_def by blast+
    have f: "filter (\<lambda>l. e < l) (x # xs) = filter (\<lambda>l. e < l) xs" using False by simp
    have eq: "length (x # xs) - k = Suc (length xs - k)" using le by simp
    have a: "filter (\<lambda>l. e < l) xs = drop (length (x # xs) - k) (x # xs)"
      unfolding eq drop_Suc_Cons by (rule ih)
    have b: "\<forall>y \<in> set (take (length (x # xs) - k) (x # xs)). \<not> e < y"
      unfolding eq take_Suc_Cons using ih2 False by simp
    show ?thesis unfolding f using a b unfolding k_def by blast
  qed
qed

lemma take_rev_filter:
  fixes xs :: "real list"
  assumes "sorted xs"
  shows "take (length (filter (\<lambda>l. e < l) xs)) (rev xs) = filter (\<lambda>l. e < l) (rev xs)"
proof -
  define k where "k = length (filter (\<lambda>l. e < l) xs)"
  have "take k (rev xs) = rev (drop (length xs - k) xs)"
    by (simp add: take_rev)
  also have "\<dots> = rev (filter (\<lambda>l. e < l) xs)"
    using sorted_filter_upper [OF assms, of e] unfolding k_def by argo
  finally show ?thesis unfolding k_def by (simp only: rev_filter)
qed

lemma numComponentsToKeep_eq:
  "numComponentsToKeep es = length (filter (\<lambda>l. 1 / 10 ^ 10 < l) (eigenvalues es))"
  by (simp add: numComponentsToKeep_def)

lemma descending_kept:
  fixes xs :: "real list"
  shows "sorted xs \<Longrightarrow> sorted_wrt (\<lambda>a b. b \<le> a) (filter P (rev xs))"
  by (simp add: sorted_wrt_filter sorted_wrt_rev)



lemma rot_of_eq:
  assumes "is_mat n n (eigenvectors es)" and "length (eigenvalues es) = n" and "nrows A = n"
  shows "rot_of es A = Inr (map (\<lambda>r. take (numComponentsToKeep es) (rev r)) (eigenvectors es))"
proof -
  have k: "numComponentsToKeep es \<le> n"
    using assms(2) length_filter_le [of _ "eigenvalues es"] by (simp add: numComponentsToKeep_def)
  have len: "length (eigenvectors es) = n"
    using assms(1) by (simp add: is_mat_def)
  have rm: "is_mat n n (rowwise_reverse (eigenvectors es))"
    using assms(1) by (simp add: is_mat_def rowwise_reverse_def list_all_iff)
  have "numComponentsToKeep es \<le> ncols (rowwise_reverse (eigenvectors es))"
  proof (cases "n = 0")
    case True
    with k show ?thesis by simp
  next
    case False
    with ncols_is_mat [OF rm] k show ?thesis by simp
  qed
  then show ?thesis
    using len assms(3)
    by (simp add: rot_of_def topLeftCorner_def nrows_def rowwise_reverse_def comp_def)
qed

lemma scl_of_eq:
  "scl_of es = Inr (map sqrt (take (numComponentsToKeep es) (rev (eigenvalues es))))"
  by (simp add: scl_of_def topRows_def numComponentsToKeep_def)

lemma col_kept:
  assumes "is_mat n n V" and "c < k" and "k \<le> n"
  shows "col (map (\<lambda>r. take k (rev r)) V) c = col V (n - 1 - c)"
proof -
  have "\<forall>r \<in> set V. length r = n"
    using assms(1) by (simp add: is_mat_def list_all_iff)
  then have "\<forall>r \<in> set V. take k (rev r) ! c = r ! (n - 1 - c)"
    using assms(2,3) by (simp add: rev_nth)
  then show ?thesis by (simp add: col_def)
qed

text \<open>
  C5. Let the solver return \<open>n\<close> eigenvalues in increasing order and an \<open>n\<close> x \<open>n\<close> matrix of
  eigenvectors. The truncation succeeds; the kept eigenvalues, whose square roots form
  \<^verbatim>\<open>scl\<close>, are exactly the eigenvalues greater than \<open>1e-10\<close>, each as often as it occurs, in
  descending order; column \<open>c\<close> of \<^verbatim>\<open>rot\<close> is the eigenvector of the kept eigenvalue \<open>c\<close>
  (column \<open>n - 1 - c\<close> of the solver); and every eigenvalue greater than \<open>1e-10\<close> is among
  the kept ones.
\<close>

theorem truncation_keeps:
  assumes "sorted (eigenvalues es)"
    and "length (eigenvalues es) = n"
    and "is_mat n n (eigenvectors es)"
    and "nrows A = n"
  shows "\<exists>rot scl.
           rot_of es A = Inr rot \<and> scl_of es = Inr scl
         \<and> is_mat n (numComponentsToKeep es) rot
         \<and> scl = map sqrt (filter (\<lambda>l. 1 / 10 ^ 10 < l) (rev (eigenvalues es)))
         \<and> sorted_wrt (\<lambda>a b. b \<le> a) (filter (\<lambda>l. 1 / 10 ^ 10 < l) (rev (eigenvalues es)))
         \<and> (\<forall>c < numComponentsToKeep es.
               col rot c = col (eigenvectors es) (n - 1 - c)
             \<and> scl ! c = sqrt (eigenvalues es ! (n - 1 - c))
             \<and> 1 / 10 ^ 10 < eigenvalues es ! (n - 1 - c))
         \<and> (\<forall>j < n. 1 / 10 ^ 10 < eigenvalues es ! j \<longrightarrow> n - numComponentsToKeep es \<le> j)"
proof -
  define k where "k = numComponentsToKeep es"
  define ev where "ev = eigenvalues es"
  define P where "P = (\<lambda>l::real. 1 / 10 ^ 10 < l)"
  have kf: "k = length (filter P ev)"
    by (simp add: k_def ev_def P_def numComponentsToKeep_eq)
  have kn: "k \<le> n" using assms(2) length_filter_le [of P ev] by (simp add: kf ev_def)
  have len: "length ev = n" using assms(2) by (simp add: ev_def)
  have sorted: "sorted ev" using assms(1) by (simp add: ev_def)
  have tk: "take k (rev ev) = filter P (rev ev)"
    unfolding kf P_def by (rule take_rev_filter [OF sorted])
  have up: "filter P ev = drop (n - k) ev" and low: "\<forall>x \<in> set (take (n - k) ev). \<not> P x"
    using sorted_filter_upper [OF sorted, of "1 / 10 ^ 10"] unfolding P_def [symmetric] kf [symmetric] len
    by blast+
  have kept: "P (ev ! (n - 1 - c))" if "c < k" for c
  proof -
    have "ev ! (n - 1 - c) = drop (n - k) ev ! (k - 1 - c)"
      using that kn len by simp
    moreover have "k - 1 - c < length (drop (n - k) ev)" using that kn len by simp
    ultimately have "ev ! (n - 1 - c) \<in> set (filter P ev)"
      unfolding up by (metis nth_mem)
    then show ?thesis by simp
  qed
  have only: "n - k \<le> j" if "j < n" and "P (ev ! j)" for j
  proof (rule ccontr)
    assume "\<not> n - k \<le> j"
    then have "j < n - k" by simp
    then have "ev ! j \<in> set (take (n - k) ev)"
      using len by (metis in_set_conv_nth length_take min_less_iff_conj nth_take that(1))
    with low that(2) show False by blast
  qed
  have sclc: "map sqrt (take k (rev ev)) ! c = sqrt (ev ! (n - 1 - c))" if "c < k" for c
    using that kn len by (simp add: rev_nth)
  have rot: "rot_of es A = Inr (map (\<lambda>r. take k (rev r)) (eigenvectors es))"
    unfolding k_def by (rule rot_of_eq [OF assms(3) assms(2) assms(4)])
  have scl: "scl_of es = Inr (map sqrt (take k (rev ev)))"
    unfolding k_def ev_def by (rule scl_of_eq)
  have shape: "is_mat n k (map (\<lambda>r. take k (rev r)) (eigenvectors es))"
    using assms(3) kn by (auto simp: is_mat_def list_all_iff)
  have desc: "sorted_wrt (\<lambda>a b. b \<le> a) (filter P (rev ev))"
    by (rule descending_kept [OF sorted])
  have cols: "col (map (\<lambda>r. take k (rev r)) (eigenvectors es)) c = col (eigenvectors es) (n - 1 - c)"
    if "c < k" for c
    by (rule col_kept [OF assms(3) that kn])
  show ?thesis
    unfolding k_def [symmetric] ev_def [symmetric] P_def [symmetric]
    using rot scl shape tk desc cols sclc kept only by simp
qed


theorem truncation_keeps_witness:
  "sorted (eigenvalues \<lparr>eigenvalues = [0, 1], eigenvectors = [[1, 0], [0, 1]]\<rparr>)
   \<and> length (eigenvalues \<lparr>eigenvalues = [0, 1], eigenvectors = [[1, 0], [0, 1]]\<rparr>) = 2
   \<and> is_mat 2 2 (eigenvectors \<lparr>eigenvalues = [0, 1], eigenvectors = [[1, 0], [0, 1]]\<rparr>)
   \<and> nrows [[0, 0], [0, 1]] = 2
   \<and> numComponentsToKeep \<lparr>eigenvalues = [0, 1], eigenvectors = [[1, 0], [0, 1]]\<rparr> = 1
   \<and> rot_of \<lparr>eigenvalues = [0, 1], eigenvectors = [[1, 0], [0, 1]]\<rparr> [[0, 0], [0, 1]]
       = Inr [[0], [1]]
   \<and> scl_of \<lparr>eigenvalues = [0, 1], eigenvectors = [[1, 0], [0, 1]]\<rparr> = Inr [1]"
  using truncation_keeps
    [of "\<lparr>eigenvalues = [0, 1], eigenvectors = [[1, 0], [0, 1]]\<rparr>" 2 "[[0, 0], [0, 1]]"]
  by (simp add: is_mat_def nrows_def ncols_def numComponentsToKeep_def rot_of_def scl_of_def
      topLeftCorner_def topRows_def rowwise_reverse_def)

section \<open>Properties of the draw\<close>

lemma nrows_asDiagonal: "nrows (asDiagonal v) = length v"
  by (simp add: asDiagonal_def nrows_def)

lemma ncols_asDiagonal: "ncols (asDiagonal v) = length v"
proof (cases "length v")
  case 0
  then show ?thesis by (simp add: asDiagonal_def ncols_def)
next
  case (Suc k)
  then have "[0..<length v] = 0 # [1..<length v]" by (simp add: upt_rec)
  then show ?thesis using Suc by (simp add: asDiagonal_def ncols_def)
qed

lemma col_asDiagonal:
  "j < length v \<Longrightarrow> col (asDiagonal v) j = map (\<lambda>i. if i = j then v ! i else 0) [0..<length v]"
  by (simp add: col_def asDiagonal_def)

lemma dot_col_asDiagonal:
  assumes "length r = length v" and "j < length v"
  shows "dot r (col (asDiagonal v) j) = r ! j * v ! j"
proof -
  have "dot r (col (asDiagonal v) j) = (\<Sum>i<length r. r ! i * (col (asDiagonal v) j) ! i)"
    using assms by (intro dot_nth) (simp add: col_asDiagonal)
  also have "\<dots> = (\<Sum>i<length v. if i = j then r ! j * v ! j else 0)"
    unfolding assms(1) using assms(2) by (intro sum.cong) (simp_all add: col_asDiagonal)
  also have "\<dots> = r ! j * v ! j"
    using assms(2) by simp
  finally show ?thesis .
qed

lemma row_times_asDiagonal:
  assumes "length r = length v"
  shows "map (\<lambda>j. dot r (col (asDiagonal v) j)) [0..<length v] = map2 (*) r v"
  using assms by (intro nth_equalityI) (simp_all add: dot_col_asDiagonal)

lemma dot_scaled:
  assumes "length r = length scl" and "length z = length scl"
  shows "dot (map2 (*) r scl) z = dot r (map2 (*) z scl)"
proof -
  have "dot (map2 (*) r scl) z = (\<Sum>i<length scl. (r ! i * scl ! i) * z ! i)"
    using assms by (subst dot_nth) simp_all
  also have "\<dots> = (\<Sum>i<length scl. r ! i * (z ! i * scl ! i))"
    by (intro sum.cong) (simp_all add: mult_ac)
  also have "\<dots> = dot r (map2 (*) z scl)"
    using assms by (subst dot_nth) simp_all
  finally show ?thesis .
qed

lemma Q_of_rows:
  assumes "list_all (\<lambda>r. length r = length scl) rot" and "rot \<noteq> []"
  shows "Q_of rot scl = Inr (map (\<lambda>r. map2 (*) r scl) rot)"
proof -
  have nc: "ncols rot = length scl"
    using assms by (cases rot) (simp_all add: ncols_def)
  have "map (\<lambda>r. map (\<lambda>j. dot r (col (asDiagonal scl) j)) [0..<length scl]) rot
        = map (\<lambda>r. map2 (*) r scl) rot"
    using assms(1) by (intro map_cong refl row_times_asDiagonal) (simp add: list_all_iff)
  then show ?thesis
    by (simp add: Q_of_def mat_mul_def nc nrows_asDiagonal ncols_asDiagonal)
qed

text \<open>
  C10. For a matrix \<^verbatim>\<open>rot\<close> whose rows have as many entries as \<^verbatim>\<open>scl\<close>, and a noise vector
  \<open>z\<close> of that length, the draw of the code, \<open>rot (z .* scl) + mean\<close>, equals the draw of the
  specification, \<open>Q z + mean\<close> with \<open>Q = rot diag(scl)\<close>; with a mean vector of as many
  entries as \<^verbatim>\<open>rot\<close> has rows, both are a vector of that length.
\<close>

theorem draw_refines_spec:
  assumes "list_all (\<lambda>r. length r = length scl) rot" and "length z = length scl"
  shows "draw rot scl m z = spec_draw rot scl m z
         \<and> (rot \<noteq> [] \<longrightarrow> length m = length rot \<longrightarrow>
               (\<exists>r. draw rot scl m z = Inr r \<and> length r = length rot))"
proof (cases rot)
  case Nil
  then show ?thesis
    using assms(2)
    by (simp add: draw_def spec_draw_def Q_of_def cwise_mul_def mat_vec_def mat_mul_def
        ncols_def nrows_asDiagonal)
next
  case (Cons r rs)
  then have ne: "rot \<noteq> []" by simp
  have nc: "ncols rot = length scl"
    using assms(1) Cons by (simp add: ncols_def)
  have ncQ: "ncols (map (\<lambda>r. map2 (*) r scl) rot) = length scl"
    using assms(1) Cons by (simp add: ncols_def)
  have rows: "map (\<lambda>r. dot r z) (map (\<lambda>r. map2 (*) r scl) rot)
              = map (\<lambda>r. dot r (map2 (*) z scl)) rot"
    using assms by (simp add: list_all_iff dot_scaled)
  have d: "draw rot scl m z = vec_add (map (\<lambda>r. dot r (map2 (*) z scl)) rot) m"
    using assms(2) by (simp add: draw_def cwise_mul_def mat_vec_def nc)
  have s: "spec_draw rot scl m z
           = vec_add (map (\<lambda>r. dot r z) (map (\<lambda>r. map2 (*) r scl) rot)) m"
    using assms(2)
    by (simp only: spec_draw_def Q_of_rows [OF assms(1) ne] mat_vec_def ncQ sum.case
        simp_thms if_True)
  have "draw rot scl m z = spec_draw rot scl m z" unfolding d s rows ..
  moreover have "\<exists>r. draw rot scl m z = Inr r \<and> length r = length rot"
    if "length m = length rot"
    unfolding d using that by (simp add: vec_add_def)
  ultimately show ?thesis by blast
qed

theorem draw_refines_spec_witness:
  "list_all (\<lambda>r. length r = length [2, 3 :: real]) [[1, 2], [3, 4]]
   \<and> length [5, 7 :: real] = length [2, 3 :: real]
   \<and> draw [[1, 2], [3, 4]] [2, 3] [1, 1] [5, 7] = Inr [53, 115]
   \<and> spec_draw [[1, 2], [3, 4]] [2, 3] [1, 1] [5, 7] = Inr [53, 115]"
  using draw_refines_spec [of "[2, 3]" "[[1, 2], [3, 4]]" "[5, 7]" "[1, 1]"]
  by (simp add: draw_def cwise_mul_def mat_vec_def vec_add_def ncols_def dot_def)

lemma is_mat_asDiagonal: "is_mat (length v) (length v) (asDiagonal v)"
  by (simp add: is_mat_def asDiagonal_def list_all_iff)

lemma Test2_draw_truncated:
  assumes "is_mat n n (eigenvectors es)" and "length (eigenvalues es) = n" and "nrows A = n"
    and "numComponentsToKeep es \<noteq> number_of_samples"
  shows "Test2_draw es A m gen = Inl SizeMismatch"
proof -
  have k: "numComponentsToKeep es \<le> n"
    using assms(2) length_filter_le [of _ "eigenvalues es"] by (simp add: numComponentsToKeep_def)
  have z: "length (fst (GetRandomVector number_of_samples gen)) = number_of_samples"
    by (simp add: GetRandomVector_def)
  show ?thesis
    using assms(2,4) k z
    by (simp add: Test2_draw_def rot_of_eq [OF assms(1,2,3)] scl_of_eq draw_def cwise_mul_def)
qed

text \<open>
  C7. The claim gives the noise vector of a draw the length of the retained components.
  The code asks the noise source for \<^verbatim>\<open>number_of_samples\<close> deviates, the number of query
  points. For the covariance matrix \<open>diag(0, 1, \<dots>, 1)\<close> of 50 query points, whose
  eigenvalues are \<open>0, 1, \<dots>, 1\<close> with the unit vectors as eigenvectors, 49 components are
  retained, the noise vector has 50 entries, and its component-wise product with the 49
  entries of \<^verbatim>\<open>scl\<close> has operands that do not fit: no draw is computed.
\<close>

theorem Test2_draw_size_mismatch:
  "numComponentsToKeep
     \<lparr>eigenvalues = 0 # replicate 49 1, eigenvectors = asDiagonal (replicate 50 1)\<rparr> = 49
   \<and> length (fst (GetRandomVector number_of_samples (\<lambda>i. real i))) = 50
   \<and> Test2_draw
       \<lparr>eigenvalues = 0 # replicate 49 1, eigenvectors = asDiagonal (replicate 50 1)\<rparr>
       (asDiagonal (0 # replicate 49 1)) (replicate 50 0) (\<lambda>i. real i)
     = Inl SizeMismatch"
proof -
  let ?es = "\<lparr>eigenvalues = 0 # replicate 49 1, eigenvectors = asDiagonal (replicate 50 1)\<rparr>"
  have k: "numComponentsToKeep ?es = 49"
    by (simp add: numComponentsToKeep_def)
  have z: "length (fst (GetRandomVector number_of_samples (\<lambda>i. real i))) = 50"
    by (simp add: GetRandomVector_def number_of_samples_def)
  have m: "is_mat 50 50 (eigenvectors ?es)"
    using is_mat_asDiagonal [of "replicate 50 1"] by simp
  have "Test2_draw ?es (asDiagonal (0 # replicate 49 1)) (replicate 50 0) (\<lambda>i. real i)
        = Inl SizeMismatch"
    by (rule Test2_draw_truncated [OF m]) (simp_all add: nrows_asDiagonal k number_of_samples_def)
  with k z show ?thesis by simp
qed

section \<open>Properties of the draws at points of variance zero\<close>

lemma kept_above_threshold:
  assumes "sorted (eigenvalues es)" and "length (eigenvalues es) = n"
    and "c < numComponentsToKeep es"
  shows "1 / 10 ^ 10 < eigenvalues es ! (n - 1 - c)"
proof -
  define ev where "ev = eigenvalues es"
  define k where "k = length (filter (\<lambda>l. 1 / 10 ^ 10 < l) ev)"
  have kk: "numComponentsToKeep es = k" by (simp add: k_def ev_def numComponentsToKeep_eq)
  have len: "length ev = n" and srt: "sorted ev" using assms by (simp_all add: ev_def)
  have kn: "k \<le> n" using length_filter_le [of _ ev] by (simp add: k_def len [symmetric])
  have up: "filter (\<lambda>l. 1 / 10 ^ 10 < l) ev = drop (n - k) ev"
    using sorted_filter_upper [OF srt, of "1 / 10 ^ 10"] unfolding k_def [symmetric] len by blast
  have ck: "c < k" using assms(3) kk by simp
  have "ev ! (n - 1 - c) = drop (n - k) ev ! (k - 1 - c)"
    using ck kn len by simp
  moreover have "k - 1 - c < length (drop (n - k) ev)" using ck kn len by simp
  ultimately have "ev ! (n - 1 - c) \<in> set (filter (\<lambda>l. 1 / 10 ^ 10 < l) ev)"
    unfolding up by (metis nth_mem)
  then show ?thesis by (simp add: ev_def)
qed


lemma numComponentsToKeep_le:
  "length (eigenvalues es) = n \<Longrightarrow> numComponentsToKeep es \<le> n"
  using length_filter_le [of _ "eigenvalues es"] by (simp add: numComponentsToKeep_def)

lemma kept_rot_entry:
  assumes "is_mat n n V" and "a < n" and "c < k" and "k \<le> n"
  shows "map (\<lambda>r. take k (rev r)) V ! a ! c = V ! a ! (n - 1 - c)"
    and "length (map (\<lambda>r. take k (rev r)) V ! a) = k"
  using assms by (simp_all add: is_mat_def list_all_iff rev_nth)

lemma dot_zero_row:
  assumes "length r = length v" and "\<forall>c < length r. r ! c = 0"
  shows "dot r v = 0"
  using assms by (simp add: dot_nth)

text \<open>
  C4. Let the solver return \<open>n\<close> eigenvalues in increasing order, none of them negative,
  and an \<open>n\<close> x \<open>n\<close> matrix of eigenvectors, and let the covariance matrix have the
  variance zero at index \<open>i\<close>, as under zero observation noise at a training input, this
  diagonal entry being the one the decomposition gives,
  \<open>\<Sum>\<^sub>j \<lambda>\<^sub>j V\<^sub>i\<^sub>j\<^sup>2\<close>. Then for every noise vector of the length of the retained
  components, however many are retained, the draw is computed and equals the mean at
  index \<open>i\<close>, so it is within \<open>1e-9\<close> of it.
\<close>

theorem draw_equals_mean_at_zero_variance:
  assumes "sorted (eigenvalues es)"
    and "length (eigenvalues es) = n"
    and "is_mat n n (eigenvectors es)"
    and "nrows A = n"
    and "\<forall>l \<in> set (eigenvalues es). 0 \<le> l"
    and "i < n"
    and "A ! i ! i = (\<Sum>j<n. eigenvalues es ! j * (eigenvectors es ! i ! j)\<^sup>2)"
    and "A ! i ! i = 0"
    and "length z = numComponentsToKeep es"
    and "length m = n"
  shows "\<exists>rot scl r. rot_of es A = Inr rot \<and> scl_of es = Inr scl
           \<and> draw rot scl m z = Inr r \<and> length r = n
           \<and> r ! i = m ! i \<and> \<bar>r ! i - m ! i\<bar> < 1 / 10 ^ 9"
proof -
  define k where "k = numComponentsToKeep es"
  define ev where "ev = eigenvalues es"
  define V where "V = eigenvectors es"
  define rot where "rot = map (\<lambda>r. take k (rev r)) V"
  define scl where "scl = map sqrt (take k (rev ev))"
  define v where "v = map2 (*) z scl"
  have kn: "k \<le> n" unfolding k_def by (rule numComponentsToKeep_le [OF assms(2)])
  have rot: "rot_of es A = Inr rot"
    unfolding rot_def k_def V_def by (rule rot_of_eq [OF assms(3,2,4)])
  have scl: "scl_of es = Inr scl"
    unfolding scl_def k_def ev_def by (rule scl_of_eq)
  have lscl: "length scl = k" using kn assms(2) by (simp add: scl_def ev_def)
  have lz: "length z = k" using assms(9) by (simp add: k_def)
  have lv: "length v = k" using lscl lz by (simp add: v_def)
  have shape: "is_mat n k rot"
    using assms(3) kn by (auto simp: rot_def V_def is_mat_def list_all_iff)
  have nc: "ncols rot = k" using ncols_is_mat [OF shape] assms(6) by simp
  have lrot: "length rot = n" using shape by (simp add: is_mat_def)
  have terms: "\<forall>j \<in> {..<n}. ev ! j * (V ! i ! j)\<^sup>2 = 0"
  proof -
    have nonneg: "\<forall>j \<in> {..<n}. 0 \<le> ev ! j * (V ! i ! j)\<^sup>2"
      using assms(5,2) by (simp add: ev_def)
    have "(\<Sum>j<n. ev ! j * (V ! i ! j)\<^sup>2) = 0"
      using assms(7,8) by (simp add: ev_def V_def)
    then show ?thesis
      using nonneg sum_nonneg_eq_0_iff [of "{..<n}" "\<lambda>j. ev ! j * (V ! i ! j)\<^sup>2"] by simp
  qed
  have zero: "rot ! i ! c = 0" if "c < k" for c
  proof -
    have "1 / 10 ^ 10 < ev ! (n - 1 - c)"
      unfolding ev_def using that
      by (intro kept_above_threshold [OF assms(1,2)]) (simp add: k_def)
    then have pos: "0 < ev ! (n - 1 - c)"
      by (rule less_trans [rotated]) simp
    have "n - 1 - c < n" using assms(6) by simp
    with terms have "ev ! (n - 1 - c) * (V ! i ! (n - 1 - c))\<^sup>2 = 0" by simp
    with pos have "V ! i ! (n - 1 - c) = 0" by simp
    then show ?thesis
      unfolding rot_def
      using kept_rot_entry(1) [OF assms(3) [folded V_def] assms(6) that kn] by simp
  qed
  have lrow: "length (rot ! i) = k"
    using shape assms(6) by (simp add: is_mat_def list_all_iff)
  have dz: "dot (rot ! i) v = 0"
    using zero lrow lv by (intro dot_zero_row) simp_all
  have d: "draw rot scl m z = Inr (map2 (+) (map (\<lambda>r. dot r v) rot) m)"
    using lz lscl lv nc lrot assms(10)
    by (simp add: draw_def cwise_mul_def mat_vec_def vec_add_def v_def)
  have ri: "map2 (+) (map (\<lambda>r. dot r v) rot) m ! i = m ! i"
    using assms(6,10) lrot dz by simp
  have len: "length (map2 (+) (map (\<lambda>r. dot r v) rot) m) = n"
    using lrot assms(10) by simp
  show ?thesis
    using rot scl d ri len by simp
qed

theorem draw_equals_mean_at_zero_variance_witness:
  "sorted (eigenvalues \<lparr>eigenvalues = [0, 1], eigenvectors = [[1, 0], [0, 1]]\<rparr>)
   \<and> is_mat 2 2 (eigenvectors \<lparr>eigenvalues = [0, 1], eigenvectors = [[1, 0], [0, 1]]\<rparr>)
   \<and> [[0, 0], [0, 1 :: real]] ! 0 ! 0 = 0
   \<and> length [7 :: real]
       = numComponentsToKeep \<lparr>eigenvalues = [0, 1], eigenvectors = [[1, 0], [0, 1]]\<rparr>
   \<and> rot_of \<lparr>eigenvalues = [0, 1], eigenvectors = [[1, 0], [0, 1]]\<rparr> [[0, 0], [0, 1]]
       = Inr [[0], [1]]
   \<and> scl_of \<lparr>eigenvalues = [0, 1], eigenvectors = [[1, 0], [0, 1]]\<rparr> = Inr [1]
   \<and> draw [[0], [1]] [1] [3, 4] [7] = Inr [3, 11]
   \<and> (\<exists>rot scl r.
         rot_of \<lparr>eigenvalues = [0, 1], eigenvectors = [[1, 0], [0, 1]]\<rparr> [[0, 0], [0, 1]]
           = Inr rot
       \<and> scl_of \<lparr>eigenvalues = [0, 1], eigenvectors = [[1, 0], [0, 1]]\<rparr> = Inr scl
       \<and> draw rot scl [3, 4] [7] = Inr r \<and> length r = 2
       \<and> r ! 0 = [3, 4] ! 0 \<and> \<bar>r ! 0 - [3, 4] ! 0\<bar> < 1 / 10 ^ 9)"
proof -
  have ev: "numComponentsToKeep \<lparr>eigenvalues = [0, 1], eigenvectors = [[1, 0], [0, 1]]\<rparr> = 1"
    by (simp add: numComponentsToKeep_def)
  have rot: "rot_of \<lparr>eigenvalues = [0, 1], eigenvectors = [[1, 0], [0, 1]]\<rparr> [[0, 0], [0, 1]]
             = Inr [[0], [1]]"
    by (simp add: rot_of_def topLeftCorner_def rowwise_reverse_def nrows_def ncols_def ev)
  have scl: "scl_of \<lparr>eigenvalues = [0, 1], eigenvectors = [[1, 0], [0, 1]]\<rparr> = Inr [1]"
    by (simp add: scl_of_def topRows_def ev)
  have dr: "draw [[0], [1]] [1] [3, 4] [7] = Inr [3, 11]"
    by (simp add: draw_def cwise_mul_def mat_vec_def vec_add_def ncols_def dot_def)
  have s2: "(\<Sum>j<2. [0, 1 :: real] ! j * ([[1, 0], [0, 1 :: real]] ! 0 ! j)\<^sup>2) = 0"
    by (simp add: numeral_2_eq_2)
  show ?thesis
    using draw_equals_mean_at_zero_variance
      [of "\<lparr>eigenvalues = [0, 1], eigenvectors = [[1, 0], [0, 1]]\<rparr>" 2 "[[0, 0], [0, 1]]" 0
          "[7]" "[3, 4]"]
    by (simp add: ev rot scl dr s2 is_mat_def nrows_def)
qed

section \<open>Properties of the decomposition check\<close>









end
